theory Spec2Isabelle
  imports Complex_Main "HOL-Library.Log_Nat"
begin

section \<open>The pressure streamer sketches\<close>

text \<open>
  The repository holds two Arduino sketches with the same structure: \<open>setup\<close> opens the
  serial port and prints a banner, \<open>loop\<close> first reads at most one byte of a command line
  and then, when collection is switched on, reads the pressure sensor and prints a reading.
  Variant A is the sketch that prints the voltage and acknowledges commands; Variant B is
  \<^verbatim>\<open>arduino.ino\<close>, which prints the pressure in bar and has the acknowledgements commented
  out.
\<close>

datatype variant = VariantA | VariantB

subsection \<open>The String operations the sketches call\<close>

text \<open>
  An Arduino \<open>String\<close> is modelled as the sequence of the \<open>len\<close> characters it holds, and
  the three library operations the sketches use follow the Arduino core: \<open>trim\<close> removes
  leading and trailing whitespace (the characters C's \<open>isspace\<close> accepts), and \<open>+=\<close> with
  a character appends it, a zero byte like any other. \<open>equalsIgnoreCase\<close> first compares
  the lengths and then walks the receiver as a C string,
  \<^verbatim>\<open>while (*p1) { if (tolower(*p1++) != tolower(*p2++)) return 0; } return 1;\<close>
  so that the comparison ends, with success, at the first zero byte of the receiver.
  \<open>equalsIgnoreCase_loop\<close> is this loop; where the receiver is exhausted \<open>*p1\<close> is the
  terminator of its buffer. The library's shortcut for a receiver compared with itself
  never applies: the argument is a \<open>String\<close> made from a literal. Buffer management is
  not modelled: heap exhaustion, on which \<open>+=\<close> leaves the string as it was, is outside
  the model.
\<close>

definition isspace :: "char \<Rightarrow> bool" where
  "isspace c = (of_char c = (32::nat) \<or> (9 \<le> (of_char c :: nat) \<and> (of_char c :: nat) \<le> 13))"

definition tolower :: "char \<Rightarrow> char" where
  "tolower c =
     (if 65 \<le> (of_char c :: nat) \<and> (of_char c :: nat) \<le> 90
      then char_of (of_char c + (32::nat)) else c)"

definition trim :: "string \<Rightarrow> string" where
  "trim s = rev (dropWhile isspace (rev (dropWhile isspace s)))"

fun equalsIgnoreCase_loop :: "string \<Rightarrow> string \<Rightarrow> bool" where
  "equalsIgnoreCase_loop [] p2 = True"
| "equalsIgnoreCase_loop (c1 # p1) p2 =
     (if c1 = CHR 0x00 then True
      else (case p2 of
              [] \<Rightarrow> False
            | c2 # p2' \<Rightarrow>
                if tolower c1 = tolower c2 then equalsIgnoreCase_loop p1 p2' else False))"

definition equalsIgnoreCase :: "string \<Rightarrow> string \<Rightarrow> bool" where
  "equalsIgnoreCase s1 s2 =
     (if length s1 = length s2
      then (if length s1 = 0 then True else equalsIgnoreCase_loop s1 s2)
      else False)"

subsection \<open>State and observable effects\<close>

text \<open>
  The two globals of a sketch are the fields \<open>isRunning\<close> and \<open>inputCommand\<close>. Everything
  a sketch does to the outside world is appended, in program order, to \<open>effects\<close>.
\<close>

datatype pin = A0

datatype effect =
    SerialBegin nat
  | Println string
  | PrintlnFloat rat nat
  | AnalogRead pin
  | Delay nat

record sketch =
  isRunning :: bool
  inputCommand :: string
  effects :: "effect list"

definition pressurePin :: pin where
  "pressurePin = A0"




subsection \<open>The command interpreter (first block of \<open>loop\<close>)\<close>

text \<open>
  \<open>Serial.available() > 0\<close> and \<open>Serial.read()\<close> are the environment's: an iteration is
  given \<open>Some inChar\<close> when a byte is waiting and \<open>None\<close> otherwise.
\<close>

definition ack_started :: "variant \<Rightarrow> effect list" where
  "ack_started v =
     (case v of VariantA \<Rightarrow> [Println ''Pressure data collection STARTED.''] | VariantB \<Rightarrow> [])"

definition ack_stopped :: "variant \<Rightarrow> effect list" where
  "ack_stopped v =
     (case v of VariantA \<Rightarrow> [Println ''Pressure data collection STOPPED.''] | VariantB \<Rightarrow> [])"

definition command_interpreter :: "variant \<Rightarrow> char option \<Rightarrow> sketch \<Rightarrow> sketch" where
  "command_interpreter v available s =
     (case available of
        None \<Rightarrow> s
      | Some inChar \<Rightarrow>
          if inChar = CHR 0x0A \<or> inChar = CHR 0x0D then
            (let cmd = trim (inputCommand s) in
             (if equalsIgnoreCase cmd ''start'' then
                s\<lparr>isRunning := True, effects := effects s @ ack_started v\<rparr>
              else if equalsIgnoreCase cmd ''stop'' then
                s\<lparr>isRunning := False, effects := effects s @ ack_stopped v\<rparr>
              else s)
             \<lparr>inputCommand := []\<rparr>)
          else s\<lparr>inputCommand := inputCommand s @ [inChar]\<rparr>)"

subsection \<open>Single-precision arithmetic\<close>

text \<open>
  The sketches target the 5 V, 10-bit boards (AVR), where \<open>float\<close> and \<open>double\<close> are both
  IEEE binary32, so every constant and every operation of the conversion is rounded to 24
  significant bits. A finite binary32 value is modelled by the rational it denotes;
  \<open>fl32\<close> rounds a rational to the nearest such value, ties to even, with the exponent
  held at \<open>-126\<close> in the subnormal range. Values beyond the largest finite float, which the
  hardware turns into infinities, are outside the model; the conversions of the samples
  0 to 1023 stay below 8 in magnitude.
\<close>

definition ilog2 :: "rat \<Rightarrow> int" where
  "ilog2 x =
     (let (p, q) = quotient_of \<bar>x\<bar>; d = bitlen p - bitlen q
      in if 2 powi d \<le> \<bar>x\<bar> then d else d - 1)"

definition round_ties_even :: "rat \<Rightarrow> int" where
  "round_ties_even y =
     (let f = \<lfloor>y\<rfloor>; r = y - of_int f
      in if r < 1 / 2 then f else if 1 / 2 < r then f + 1 else if even f then f else f + 1)"

definition fl32 :: "rat \<Rightarrow> rat" where
  "fl32 x =
     (if x = 0 then 0
      else let e = max (ilog2 x) (- 126); ulp = 2 powi (e - 23)
           in of_int (round_ties_even (x / ulp)) * ulp)"

definition fmul :: "rat \<Rightarrow> rat \<Rightarrow> rat" where
  "fmul a b = fl32 (a * b)"

definition fdiv :: "rat \<Rightarrow> rat \<Rightarrow> rat" where
  "fdiv a b = fl32 (a / b)"

definition fsub :: "rat \<Rightarrow> rat \<Rightarrow> rat" where
  "fsub a b = fl32 (a - b)"

subsection \<open>The sampler and converter (second block of \<open>loop\<close>)\<close>

text \<open>
  \<open>voltage_of\<close> is \<^verbatim>\<open>sensorValue * (5.0 / 1023.0)\<close>, \<open>pressure_kPa_of\<close> is
  \<^verbatim>\<open>(voltage / 5.0 - 0.095) / 0.009\<close> and \<open>pressure_bar_of\<close> is \<^verbatim>\<open>pressure_kPa / 100.0\<close>.
  The value \<open>analogRead\<close> returns is the environment's. \<open>Serial.println\<close> of a float is
  recorded with the number of decimals it is asked for: 2, the default, in Variant A and 6
  in Variant B.
\<close>

definition voltage_of :: "int \<Rightarrow> rat" where
  "voltage_of sensorValue = fmul (fl32 (of_int sensorValue)) (fdiv (fl32 5) (fl32 1023))"

definition pressure_kPa_of :: "rat \<Rightarrow> rat" where
  "pressure_kPa_of voltage =
     fdiv (fsub (fdiv voltage (fl32 5)) (fl32 (95 / 1000))) (fl32 (9 / 1000))"

definition pressure_bar_of :: "rat \<Rightarrow> rat" where
  "pressure_bar_of pressure_kPa = fdiv pressure_kPa (fl32 100)"

definition sampler :: "variant \<Rightarrow> int \<Rightarrow> sketch \<Rightarrow> sketch" where
  "sampler v sensorValue s =
     (if isRunning s then
        (let voltage = voltage_of sensorValue in
         case v of
           VariantA \<Rightarrow>
             s\<lparr>effects := effects s @
                 [AnalogRead pressurePin, PrintlnFloat voltage 2, Delay 1000]\<rparr>
         | VariantB \<Rightarrow>
             (let pressure_kPa = pressure_kPa_of voltage;
                  pressure_bar = pressure_bar_of pressure_kPa
              in s\<lparr>effects := effects s @
                   [AnalogRead pressurePin, PrintlnFloat pressure_bar 6, Delay 2000]\<rparr>))
      else s)"

subsection \<open>The loop\<close>

definition loop :: "variant \<Rightarrow> char option \<Rightarrow> int \<Rightarrow> sketch \<Rightarrow> sketch" where
  "loop v available sensorValue s = sampler v sensorValue (command_interpreter v available s)"



subsection \<open>Readings and sampling effects\<close>

text \<open>
  The value Variant B prints for a raw sample, and the effects that show a pass through
  the sampler: the read of the sensor and the reading printed.
\<close>

definition pressure_bar_for :: "int \<Rightarrow> rat" where
  "pressure_bar_for sensorValue = pressure_bar_of (pressure_kPa_of (voltage_of sensorValue))"

fun is_sampling :: "effect \<Rightarrow> bool" where
  "is_sampling (AnalogRead p) = True"
| "is_sampling (PrintlnFloat r d) = True"
| "is_sampling e = False"

subsection \<open>The command protocol as the specification words it\<close>

text \<open>
  The specification describes the inbound protocol by lines: the input is cut at every
  line terminator, each terminated line is trimmed and compared without regard to case
  with \<open>start\<close> and \<open>stop\<close>, and the Run State is what the last recognised line says.
  \<open>spec_lines\<close> gives the terminated lines of a byte sequence (bytes after the last
  terminator belong to no line yet), \<open>spec_token\<close> the command a line carries, and
  \<open>spec_run_state\<close> the Run State the specification expects after the whole sequence.
\<close>

definition spec_terminator :: "char \<Rightarrow> bool" where
  "spec_terminator c = (c = CHR 0x0A \<or> c = CHR 0x0D)"


definition spec_token :: "string \<Rightarrow> bool option" where
  "spec_token line =
     (let w = map tolower (trim line)
      in if w = ''start'' then Some True else if w = ''stop'' then Some False else None)"


section \<open>The command interpreter\<close>

subsection \<open>The library comparison on the two command words\<close>

text \<open>
  Neither \<open>tolower\<close> nor \<open>trim\<close> produces a zero byte, so a line that reads \<open>start\<close>
  or \<open>stop\<close> after trimming and lowering has none; and on a receiver without a zero
  byte the library compares every character.
\<close>

lemma tolower_zero: "tolower (CHR 0x00) = CHR 0x00"
  by (simp add: tolower_def)

lemma map_tolower_zero_free:
  assumes "map tolower s = w" "CHR 0x00 \<notin> set w"
  shows "CHR 0x00 \<notin> set s"
proof
  assume "CHR 0x00 \<in> set s"
  then have "tolower (CHR 0x00) \<in> tolower ` set s"
    by (rule imageI)
  then have "CHR 0x00 \<in> set (map tolower s)"
    by (simp add: tolower_zero)
  with assms show False
    by simp
qed


lemma equalsIgnoreCase_loop_zero_free:
  "CHR 0x00 \<notin> set s1 \<Longrightarrow> length s1 = length s2 \<Longrightarrow>
   equalsIgnoreCase_loop s1 s2 = (map tolower s1 = map tolower s2)"
  by (induction s1 s2 rule: equalsIgnoreCase_loop.induct) (auto split: list.splits)

lemma equalsIgnoreCase_zero_free:
  "CHR 0x00 \<notin> set s1 \<Longrightarrow>
   equalsIgnoreCase s1 s2 = (length s1 = length s2 \<and> map tolower s1 = map tolower s2)"
  by (auto simp: equalsIgnoreCase_def equalsIgnoreCase_loop_zero_free)

lemma equalsIgnoreCase_start:
  assumes "CHR 0x00 \<notin> set s"
  shows "equalsIgnoreCase s ''start'' \<longleftrightarrow> map tolower s = ''start''"
  unfolding equalsIgnoreCase_zero_free[OF assms]
  apply (rule iffI)
   apply (simp add: tolower_def)
  apply (rule conjI)
   apply (drule arg_cong[where f=length])
   apply simp
  apply (simp add: tolower_def)
  done

lemma equalsIgnoreCase_stop:
  assumes "CHR 0x00 \<notin> set s"
  shows "equalsIgnoreCase s ''stop'' \<longleftrightarrow> map tolower s = ''stop''"
  unfolding equalsIgnoreCase_zero_free[OF assms]
  apply (rule iffI)
   apply (simp add: tolower_def)
  apply (rule conjI)
   apply (drule arg_cong[where f=length])
   apply simp
  apply (simp add: tolower_def)
  done

lemma spec_token_zero_free:
  assumes "spec_token line = Some b"
  shows "CHR 0x00 \<notin> set (trim line)"
proof -
  from assms have "map tolower (trim line) = ''start'' \<or> map tolower (trim line) = ''stop''"
    by (simp add: spec_token_def Let_def split: if_splits)
  then show ?thesis
  proof
    assume "map tolower (trim line) = ''start''"
    then show ?thesis by (rule map_tolower_zero_free) simp
  next
    assume "map tolower (trim line) = ''stop''"
    then show ?thesis by (rule map_tolower_zero_free) simp
  qed
qed

subsection \<open>One iteration\<close>

text \<open>
  On a terminator the interpreter does what the line in the buffer says and empties the
  buffer; on any other byte it only extends the buffer. The sampler touches neither global.
\<close>

lemma sampler_isRunning [simp]: "isRunning (sampler v x s) = isRunning s"
  by (simp add: sampler_def Let_def split: variant.splits)

lemma sampler_inputCommand [simp]: "inputCommand (sampler v x s) = inputCommand s"
  by (simp add: sampler_def Let_def split: variant.splits)

lemma interp_None [simp]: "command_interpreter v None s = s"
  by (simp add: command_interpreter_def)

lemma interp_terminator:
  "spec_terminator c \<Longrightarrow> CHR 0x00 \<notin> set (trim (inputCommand s)) \<Longrightarrow>
   command_interpreter v (Some c) s =
     (case spec_token (inputCommand s) of
        Some True \<Rightarrow> s\<lparr>isRunning := True, effects := effects s @ ack_started v, inputCommand := []\<rparr>
      | Some False \<Rightarrow> s\<lparr>isRunning := False, effects := effects s @ ack_stopped v, inputCommand := []\<rparr>
      | None \<Rightarrow> s\<lparr>inputCommand := []\<rparr>)"
  by (auto simp: command_interpreter_def spec_terminator_def spec_token_def Let_def
      equalsIgnoreCase_start equalsIgnoreCase_stop)


lemma interp_start:
  "spec_terminator c \<Longrightarrow> spec_token (inputCommand s) = Some True \<Longrightarrow>
   command_interpreter v (Some c) s =
     s\<lparr>isRunning := True, effects := effects s @ ack_started v, inputCommand := []\<rparr>"
  using interp_terminator[of c s v] spec_token_zero_free[of "inputCommand s" True]
  by simp

lemma interp_stop:
  "spec_terminator c \<Longrightarrow> spec_token (inputCommand s) = Some False \<Longrightarrow>
   command_interpreter v (Some c) s =
     s\<lparr>isRunning := False, effects := effects s @ ack_stopped v, inputCommand := []\<rparr>"
  using interp_terminator[of c s v] spec_token_zero_free[of "inputCommand s" False]
  by simp


lemma interp_buffer_reset:
  "spec_terminator c \<Longrightarrow> inputCommand (command_interpreter v (Some c) s) = []"
  by (simp add: command_interpreter_def spec_terminator_def Let_def)

lemma interp_other:
  "\<not> spec_terminator c \<Longrightarrow>
   command_interpreter v (Some c) s = s\<lparr>inputCommand := inputCommand s @ [c]\<rparr>"
  by (simp add: command_interpreter_def spec_terminator_def)



lemma ack_not_sampling [simp]:
  "filter is_sampling (ack_started v) = []" "filter is_sampling (ack_stopped v) = []"
  by (simp_all add: ack_started_def ack_stopped_def split: variant.splits)

subsection \<open>Lines of the input and runs of the loop\<close>







subsection \<open>Claims about the command interpreter\<close>




text \<open>
  C4. A terminated line that trims to \<open>start\<close> leaves a running sketch running, and a
  terminated line that trims to \<open>stop\<close> leaves a stopped sketch stopped, after the
  interpreter and after the whole iteration.
\<close>

theorem start_stop_idempotent:
  "spec_terminator c \<Longrightarrow>
   (spec_token (inputCommand s) = Some True \<and> isRunning s \<longrightarrow>
      isRunning (command_interpreter v (Some c) s) \<and> isRunning (loop v (Some c) x s)) \<and>
   (spec_token (inputCommand s) = Some False \<and> \<not> isRunning s \<longrightarrow>
      \<not> isRunning (command_interpreter v (Some c) s) \<and> \<not> isRunning (loop v (Some c) x s))"
  by (simp add: loop_def interp_start interp_stop)

theorem start_stop_idempotent_witness:
  "isRunning (loop VariantA (Some (CHR 0x0A)) 300
      \<lparr>isRunning = True, inputCommand = '' StArT  '', effects = []\<rparr>) \<and>
   \<not> isRunning (loop VariantB (Some (CHR 0x0D)) 300
      \<lparr>isRunning = False, inputCommand = ''STOP'', effects = []\<rparr>)"
proof -
  have t: "spec_terminator (CHR 0x0A)" "spec_terminator (CHR 0x0D)"
    by (simp_all add: spec_terminator_def)
  have a: "spec_token '' StArT  '' = Some True" by code_simp
  have b: "spec_token ''STOP'' = Some False" by code_simp
  show ?thesis
    using start_stop_idempotent[OF t(1), of "\<lparr>isRunning = True, inputCommand = '' StArT  '', effects = []\<rparr>" VariantA 300]
      start_stop_idempotent[OF t(2), of "\<lparr>isRunning = False, inputCommand = ''STOP'', effects = []\<rparr>" VariantB 300]
      a b by simp
qed




text \<open>
  C7. After a line terminator the Command Buffer is empty, whatever the line was.
\<close>

theorem buffer_reset_on_terminator:
  "spec_terminator c \<Longrightarrow>
   inputCommand (command_interpreter v (Some c) s) = [] \<and> inputCommand (loop v (Some c) x s) = []"
  by (simp add: loop_def interp_buffer_reset)

theorem buffer_reset_on_terminator_witness:
  "inputCommand (command_interpreter VariantA (Some (CHR 0x0D))
     \<lparr>isRunning = False, inputCommand = ''start'', effects = []\<rparr>) = [] \<and>
   inputCommand (loop VariantA (Some (CHR 0x0D)) 7
     \<lparr>isRunning = False, inputCommand = ''start'', effects = []\<rparr>) = []"
proof -
  have t: "spec_terminator (CHR 0x0D)"
    by (simp add: spec_terminator_def)
  show ?thesis
    using buffer_reset_on_terminator[OF t, of VariantA "\<lparr>isRunning = False, inputCommand = ''start'', effects = []\<rparr>" 7]
    by simp
qed

text \<open>
  C9. A byte that is not a line terminator is appended to the Command Buffer, and the
  interpreter changes nothing else: not the Run State, and it prints nothing.
\<close>

theorem other_byte_appended:
  "\<not> spec_terminator c \<Longrightarrow>
   command_interpreter v (Some c) s = s\<lparr>inputCommand := inputCommand s @ [c]\<rparr>"
  by (simp add: interp_other)

theorem other_byte_appended_witness:
  "command_interpreter VariantA (Some (CHR ''t''))
     \<lparr>isRunning = True, inputCommand = ''s'', effects = []\<rparr> =
     \<lparr>isRunning = True, inputCommand = ''st'', effects = []\<rparr>"
proof -
  have t: "\<not> spec_terminator (CHR ''t'')"
    by (simp add: spec_terminator_def)
  show ?thesis
    using other_byte_appended[OF t, of VariantA "\<lparr>isRunning = True, inputCommand = ''s'', effects = []\<rparr>"]
    by simp
qed




section \<open>The conversion\<close>

subsection \<open>Rounding to single precision\<close>

text \<open>
  \<open>ilog2\<close> is the binary exponent of its argument, so \<open>fl32\<close> keeps 24 significant bits;
  the rounding error is at most half a unit in the last place, and integers below
  \<open>2 ^ 24\<close> in magnitude are not rounded at all.
\<close>

lemma bitlen_pos: "0 < x \<Longrightarrow> 1 \<le> bitlen x"
  by (simp add: bitlen_alt_def)

lemma two_powi_nat: "0 \<le> n \<Longrightarrow> (2::rat) powi n = 2 ^ nat n"
  by (simp add: power_int_def)

lemma ilog2_lower:
  assumes "x \<noteq> 0"
  shows "2 powi (ilog2 x) \<le> \<bar>x\<bar>"
proof -
  obtain p q where pq: "quotient_of \<bar>x\<bar> = (p, q)" by (cases "quotient_of \<bar>x\<bar>")
  have q: "0 < q" using pq by (rule quotient_of_denom_pos)
  have ax: "\<bar>x\<bar> = of_int p / of_int q" using pq by (rule quotient_of_div)
  have "0 < \<bar>x\<bar>" using assms by simp
  with ax q have p: "0 < p" by (simp add: zero_less_divide_iff)
  let ?d = "bitlen p - bitlen q"
  show ?thesis
  proof (cases "2 powi ?d \<le> \<bar>x\<bar>")
    case True
    then show ?thesis using pq by (simp add: ilog2_def)
  next
    case False
    then have e: "ilog2 x = ?d - 1" using pq by (simp add: ilog2_def)
    have bp: "1 \<le> bitlen p" and bq: "1 \<le> bitlen q"
      using p q by (simp_all add: bitlen_pos)
    have lo: "(2::int) ^ nat (bitlen p - 1) \<le> p" and hi: "q < (2::int) ^ nat (bitlen q)"
      using bitlen_bounds[OF p] bitlen_bounds[OF q] by simp_all
    have lo': "(2::rat) powi (bitlen p - 1) \<le> of_int p"
    proof -
      have "(of_int ((2::int) ^ nat (bitlen p - 1)) :: rat) \<le> of_int p"
        using lo by (simp only: of_int_le_iff)
      then show ?thesis using bp by (simp add: two_powi_nat)
    qed
    have hi': "(of_int q :: rat) \<le> 2 powi (bitlen q)"
    proof -
      have "(of_int q :: rat) < of_int ((2::int) ^ nat (bitlen q))"
        using hi by (simp only: of_int_less_iff)
      then show ?thesis using bq by (simp add: two_powi_nat)
    qed
    have "(2::rat) powi (?d - 1) = 2 powi (bitlen p - 1) / 2 powi (bitlen q)"
      by (simp add: power_int_diff)
    also have "\<dots> \<le> of_int p / 2 powi (bitlen q)"
      using lo' by (simp add: divide_right_mono)
    also have "\<dots> \<le> of_int p / of_int q"
      using hi' p q by (simp add: divide_left_mono)
    finally show ?thesis using e ax by simp
  qed
qed

lemma ilog2_upper:
  assumes "x \<noteq> 0"
  shows "\<bar>x\<bar> < 2 powi (ilog2 x + 1)"
proof -
  obtain p q where pq: "quotient_of \<bar>x\<bar> = (p, q)" by (cases "quotient_of \<bar>x\<bar>")
  have q: "0 < q" using pq by (rule quotient_of_denom_pos)
  have ax: "\<bar>x\<bar> = of_int p / of_int q" using pq by (rule quotient_of_div)
  have "0 < \<bar>x\<bar>" using assms by simp
  with ax q have p: "0 < p" by (simp add: zero_less_divide_iff)
  let ?d = "bitlen p - bitlen q"
  show ?thesis
  proof (cases "2 powi ?d \<le> \<bar>x\<bar>")
    case False
    then show ?thesis using pq by (simp add: ilog2_def)
  next
    case True
    then have e: "ilog2 x = ?d" using pq by (simp add: ilog2_def)
    have bp: "1 \<le> bitlen p" and bq: "1 \<le> bitlen q"
      using p q by (simp_all add: bitlen_pos)
    have hi: "p < (2::int) ^ nat (bitlen p)" and lo: "(2::int) ^ nat (bitlen q - 1) \<le> q"
      using bitlen_bounds[OF p] bitlen_bounds[OF q] by simp_all
    have hi': "(of_int p :: rat) < 2 powi (bitlen p)"
    proof -
      have "(of_int p :: rat) < of_int ((2::int) ^ nat (bitlen p))"
        using hi by (simp only: of_int_less_iff)
      then show ?thesis using bp by (simp add: two_powi_nat)
    qed
    have lo': "(2::rat) powi (bitlen q - 1) \<le> of_int q"
    proof -
      have "(of_int ((2::int) ^ nat (bitlen q - 1)) :: rat) \<le> of_int q"
        using lo by (simp only: of_int_le_iff)
      then show ?thesis using bq by (simp add: two_powi_nat)
    qed
    have "of_int p / of_int q < 2 powi (bitlen p) / (of_int q :: rat)"
      using hi' q by (simp add: divide_strict_right_mono)
    also have "\<dots> \<le> 2 powi (bitlen p) / 2 powi (bitlen q - 1)"
      using lo' q by (intro divide_left_mono) simp_all
    also have "\<dots> = 2 powi (?d + 1)"
      by (simp add: power_int_diff power_int_add)
    finally show ?thesis using e ax by simp
  qed
qed

lemma ilog2_upper_of_lt:
  assumes "x \<noteq> 0" "\<bar>x\<bar> < 2 powi n"
  shows "ilog2 x < n"
proof (rule ccontr)
  assume "\<not> ilog2 x < n"
  then have "n \<le> ilog2 x" by simp
  then have "(2::rat) powi n \<le> 2 powi (ilog2 x)"
    by (intro power_int_increasing) simp_all
  with ilog2_lower[OF assms(1)] assms(2) show False by linarith
qed

lemma round_ties_even_close: "\<bar>of_int (round_ties_even y) - y\<bar> \<le> 1 / 2"
proof -
  have "of_int \<lfloor>y\<rfloor> \<le> y" "y < of_int \<lfloor>y\<rfloor> + 1"
    by linarith+
  then show ?thesis
    by (auto simp: round_ties_even_def Let_def)
qed

lemma round_ties_even_of_int [simp]: "round_ties_even (of_int z) = z"
  by (simp add: round_ties_even_def)

lemma fl32_error:
  "\<bar>fl32 x - x\<bar> \<le> max \<bar>x\<bar> (2 powi (- 126)) / 2 ^ 24"
proof (cases "x = 0")
  case True
  then show ?thesis by (simp add: fl32_def)
next
  case False
  define e where "e = max (ilog2 x) (- 126)"
  define ulp :: rat where "ulp = 2 powi (e - 23)"
  have ulp: "0 < ulp" by (simp add: ulp_def)
  have fl: "fl32 x = of_int (round_ties_even (x / ulp)) * ulp"
    using False by (simp add: fl32_def Let_def e_def ulp_def)
  have "fl32 x - x = (of_int (round_ties_even (x / ulp)) - x / ulp) * ulp"
    using ulp fl by (simp add: field_simps)
  then have "\<bar>fl32 x - x\<bar> = \<bar>of_int (round_ties_even (x / ulp)) - x / ulp\<bar> * ulp"
    using ulp by (simp add: abs_mult)
  also have "\<dots> \<le> (1 / 2) * ulp"
    using round_ties_even_close[of "x / ulp"] ulp by (intro mult_right_mono) simp_all
  also have "(1 / 2) * ulp = 2 powi e / 2 ^ 24"
    by (simp add: ulp_def power_int_diff)
  finally have 1: "\<bar>fl32 x - x\<bar> \<le> 2 powi e / 2 ^ 24" .
  have "(2::rat) powi e \<le> max \<bar>x\<bar> (2 powi (- 126))"
  proof (cases "- 126 \<le> ilog2 x")
    case True
    then have "e = ilog2 x" by (simp add: e_def)
    then show ?thesis using ilog2_lower[OF False] by simp
  next
    case False
    then have "e = - 126" by (simp add: e_def)
    then show ?thesis by simp
  qed
  then have "(2::rat) powi e / 2 ^ 24 \<le> max \<bar>x\<bar> (2 powi (- 126)) / 2 ^ 24"
    by (simp add: divide_right_mono)
  with 1 show ?thesis by linarith
qed

lemma fl32_close:
  assumes "\<bar>x\<bar> \<le> B" "1 / 2 ^ 126 \<le> B"
  shows "\<bar>fl32 x - x\<bar> \<le> B / 2 ^ 24"
proof -
  have "(2::rat) powi (- 126) = 1 / 2 ^ 126"
    by (simp add: power_int_def field_simps)
  then have "max \<bar>x\<bar> (2 powi (- 126)) \<le> B"
    using assms by simp
  then have "max \<bar>x\<bar> (2 powi (- 126)) / 2 ^ 24 \<le> B / 2 ^ 24"
    by (simp add: divide_right_mono)
  with fl32_error[of x] show ?thesis by linarith
qed

lemma fl32_of_int:
  assumes "\<bar>n\<bar> < 2 ^ 24"
  shows "fl32 (of_int n) = of_int n"
proof (cases "n = 0")
  case True
  then show ?thesis by (simp add: fl32_def)
next
  case False
  define x :: rat where "x = of_int n"
  have x0: "x \<noteq> 0" using False by (simp add: x_def)
  define e where "e = max (ilog2 x) (- 126)"
  have "\<bar>x\<bar> < 2 powi 24"
  proof -
    have "(of_int \<bar>n\<bar> :: rat) < of_int (2 ^ 24)"
      using assms by (simp only: of_int_less_iff)
    then show ?thesis by (simp add: x_def)
  qed
  then have "ilog2 x < 24" using x0 by (rule ilog2_upper_of_lt[rotated])
  then have e: "e \<le> 23" by (simp add: e_def)
  define k where "k = nat (23 - e)"
  have ulp: "(2::rat) powi (e - 23) = 1 / 2 ^ k"
    using e by (simp add: power_int_def k_def field_simps)
  have "x / (1 / 2 ^ k) = of_int (n * 2 ^ k)"
    by (simp add: x_def)
  then have "round_ties_even (x / (1 / 2 ^ k)) = n * 2 ^ k"
    by (simp only: round_ties_even_of_int)
  then have "fl32 x = of_int (n * 2 ^ k) * (1 / 2 ^ k)"
    using x0 ulp by (simp add: fl32_def Let_def e_def[symmetric])
  then show ?thesis by (simp add: x_def)
qed

subsection \<open>The constants of the sketches\<close>

lemma scale_const: "fdiv (fl32 5) (fl32 1023) = 5248005 / 1073741824"
  by code_simp

lemma fl32_5: "fl32 5 = 5"
  by code_simp

lemma fl32_100: "fl32 100 = 100"
  by code_simp

lemma offset_const: "fl32 (95 / 1000) = 3187671 / 33554432"
  by code_simp

lemma slope_const: "fl32 (9 / 1000) = 2415919 / 268435456"
  by code_simp

lemma two_pow_21: "(1::rat) / 2 ^ 21 = 1 / 2097152"
  by simp

subsection \<open>Voltage and pressure against the exact formulas\<close>

lemma voltage_of_eq:
  "\<bar>s\<bar> < 2 ^ 24 \<Longrightarrow> voltage_of s = fl32 (of_int s * (5248005 / 1073741824))"
  by (simp add: voltage_of_def fmul_def scale_const fl32_of_int)

lemma voltage_close:
  assumes "0 \<le> s" "s \<le> 1023"
  shows "\<bar>voltage_of s - of_int s * 5 / 1023\<bar> \<le> 1 / 2 ^ 21"
proof -
  define x :: rat where "x = of_int s"
  define y where "y = fl32 (x * (5248005 / 1073741824))"
  have x: "0 \<le> x" "x \<le> 1023"
    using assms by (simp_all add: x_def)
  have v: "voltage_of s = y"
    using assms by (simp add: voltage_of_eq x_def y_def)
  have "\<bar>x * (5248005 / 1073741824)\<bar> \<le> 6"
    using x by linarith
  then have "\<bar>y - x * (5248005 / 1073741824)\<bar> \<le> 6 / 2 ^ 24"
    unfolding y_def by (rule fl32_close) simp
  then have "\<bar>y - x * (5248005 / 1073741824)\<bar> \<le> 6 / 16777216"
    by simp
  then have "\<bar>y - x * 5 / 1023\<bar> \<le> 1 / 2097152"
    using x by linarith
  then show ?thesis
    unfolding v x_def[symmetric] by simp
qed

lemma voltage_range:
  assumes "0 \<le> s" "s \<le> 1023"
  shows "- (1 / 2097152) \<le> voltage_of s \<and> voltage_of s \<le> 5 + 1 / 2097152"
proof -
  define x :: rat where "x = of_int s"
  have x: "0 \<le> x" "x \<le> 1023"
    using assms by (simp_all add: x_def)
  have "\<bar>voltage_of s - x * 5 / 1023\<bar> \<le> 1 / 2097152"
    using voltage_close[OF assms] by (simp add: x_def)
  then show ?thesis
    using x by linarith
qed

lemma pressure_formula_lin:
  "((v / 5 - 95 / 1000) / (9 / 1000)) / 100 = v * (2 / 9) - 19 / (180::rat)"
  by (simp add: field_simps)

lemma pressure_close_lin:
  assumes "- (1 / 2097152) \<le> v" "v \<le> 5 + 1 / 2097152"
  shows "\<bar>pressure_bar_of (pressure_kPa_of v) - (v * (2 / 9) - 19 / 180)\<bar> \<le> 1 / 2097152"
proof -
  define a where "a = fl32 (v / 5)"
  define b where "b = fl32 (a - 3187671 / 33554432)"
  define k where "k = fl32 (b / (2415919 / 268435456))"
  define r where "r = fl32 (k / 100)"
  have r: "pressure_bar_of (pressure_kPa_of v) = r"
    unfolding pressure_bar_of_def pressure_kPa_of_def fdiv_def fsub_def
      fl32_5 fl32_100 offset_const slope_const a_def b_def k_def r_def ..
  have "\<bar>v / 5\<bar> \<le> 9 / 8"
    using assms by linarith
  then have "\<bar>a - v / 5\<bar> \<le> (9 / 8) / 2 ^ 24"
    unfolding a_def by (rule fl32_close) simp
  then have a: "\<bar>a - v / 5\<bar> \<le> 9 / 134217728"
    by simp
  have "\<bar>a - 3187671 / 33554432\<bar> \<le> 1"
    using a assms by linarith
  then have "\<bar>b - (a - 3187671 / 33554432)\<bar> \<le> 1 / 2 ^ 24"
    unfolding b_def by (rule fl32_close) simp
  then have b: "\<bar>b - (a - 3187671 / 33554432)\<bar> \<le> 1 / 16777216"
    by simp
  have bk: "b / (2415919 / 268435456) = b * (268435456 / 2415919)"
    by simp
  have "\<bar>b * (268435456 / 2415919)\<bar> \<le> 102"
    using a b assms by linarith
  then have "\<bar>k - b * (268435456 / 2415919)\<bar> \<le> 102 / 2 ^ 24"
    unfolding k_def bk by (rule fl32_close) simp
  then have k: "\<bar>k - b * (268435456 / 2415919)\<bar> \<le> 102 / 16777216"
    by simp
  have "\<bar>k / 100\<bar> \<le> 2"
    using a b k assms by linarith
  then have "\<bar>r - k / 100\<bar> \<le> 2 / 2 ^ 24"
    unfolding r_def by (rule fl32_close) simp
  then have "\<bar>r - k / 100\<bar> \<le> 2 / 16777216"
    by simp
  then have "\<bar>r - (v * (2 / 9) - 19 / 180)\<bar> \<le> 1 / 2097152"
    using a b k assms by linarith
  then show ?thesis
    unfolding r .
qed

lemma pressure_close:
  assumes "- (1 / 2097152) \<le> v" "v \<le> 5 + 1 / 2097152"
  shows "\<bar>pressure_bar_of (pressure_kPa_of v) - ((v / 5 - 95 / 1000) / (9 / 1000)) / 100\<bar>
           \<le> 1 / 2 ^ 21"
  unfolding pressure_formula_lin two_pow_21 using assms by (rule pressure_close_lin)

lemma pressure_bar_for_close:
  assumes "0 \<le> s" "s \<le> 1023"
  shows "\<bar>pressure_bar_for s - (of_int s * (10 / 9207) - 19 / 180)\<bar> \<le> 1 / 1000000"
proof -
  define x :: rat where "x = of_int s"
  define v where "v = voltage_of s"
  have x: "0 \<le> x" "x \<le> 1023"
    using assms by (simp_all add: x_def)
  have v: "\<bar>v - x * 5 / 1023\<bar> \<le> 1 / 2097152"
    using voltage_close[OF assms] by (simp add: x_def v_def)
  have "\<bar>pressure_bar_of (pressure_kPa_of v) - (v * (2 / 9) - 19 / 180)\<bar> \<le> 1 / 2097152"
    using voltage_range[OF assms] unfolding v_def[symmetric] by (intro pressure_close_lin) simp_all
  then have "\<bar>pressure_bar_for s - (v * (2 / 9) - 19 / 180)\<bar> \<le> 1 / 2097152"
    unfolding pressure_bar_for_def v_def .
  then have "\<bar>pressure_bar_for s - (x * (10 / 9207) - 19 / 180)\<bar> \<le> 1 / 1000000"
    using v by linarith
  then show ?thesis by (simp only: x_def)
qed

lemma pressure_bar_for_strict_mono:
  assumes "0 \<le> s" "s < t" "t \<le> 1023"
  shows "pressure_bar_for s < pressure_bar_for t"
proof -
  define x :: rat where "x = of_int s"
  define y :: rat where "y = of_int t"
  have "s + 1 \<le> t" using assms by simp
  then have "(of_int (s + 1) :: rat) \<le> of_int t" by (simp only: of_int_le_iff)
  then have xy: "x + 1 \<le> y" by (simp add: x_def y_def)
  have "\<bar>pressure_bar_for s - (x * (10 / 9207) - 19 / 180)\<bar> \<le> 1 / 1000000"
    using pressure_bar_for_close[of s] assms by (simp add: x_def)
  moreover have "\<bar>pressure_bar_for t - (y * (10 / 9207) - 19 / 180)\<bar> \<le> 1 / 1000000"
    using pressure_bar_for_close[of t] assms by (simp add: y_def)
  ultimately show ?thesis
    using xy by linarith
qed

lemma pressure_bar_for_negative:
  assumes "0 \<le> s" "s \<le> 97"
  shows "pressure_bar_for s < 0"
proof -
  define x :: rat where "x = of_int s"
  have "(of_int s :: rat) \<le> of_int 97" using assms by (simp only: of_int_le_iff)
  then have x: "x \<le> 97" by (simp add: x_def)
  have "\<bar>pressure_bar_for s - (x * (10 / 9207) - 19 / 180)\<bar> \<le> 1 / 1000000"
    using pressure_bar_for_close[of s] assms by (simp add: x_def)
  then show ?thesis
    using x by linarith
qed

lemma pressure_bar_for_0: "pressure_bar_for 0 = - (3541857 / 33554432)"
  by code_simp

lemma pressure_bar_for_1023: "pressure_bar_for 1023 = 2108803 / 2097152"
  by code_simp

lemma voltage_of_511: "voltage_of 511 = 5237755 / 2097152"
  by code_simp

lemma pressure_bar_for_511: "pressure_bar_for 511 = 1885159 / 4194304"
  by code_simp

lemma sampler_A:
  "isRunning st \<Longrightarrow>
   effects (sampler VariantA s st) =
     effects st @ [AnalogRead pressurePin, PrintlnFloat (voltage_of s) 2, Delay 1000]"
  by (simp add: sampler_def)

lemma sampler_B:
  "isRunning st \<Longrightarrow>
   effects (sampler VariantB s st) =
     effects st @ [AnalogRead pressurePin, PrintlnFloat (pressure_bar_for s) 6, Delay 2000]"
  by (simp add: sampler_def pressure_bar_for_def)

subsection \<open>Claims about the conversion\<close>

text \<open>
  C2. For a raw sample from 0 to 1023 the voltage the sketches compute is
  \<open>s * 5 / 1023\<close> up to \<open>1 / 2 ^ 21\<close>, one unit in the last place of a single-precision
  number near 5, and the pressure Variant B computes from that voltage is
  \<open>((voltage / 5 - 0.095) / 0.009) / 100\<close> up to the same tolerance. What a running
  sketch prints is this value of the sample, whatever the rest of the state: the voltage
  in Variant A, the pressure in bar in Variant B.
\<close>

theorem conversion_formulas:
  "0 \<le> s \<and> s \<le> 1023 \<Longrightarrow>
   \<bar>voltage_of s - of_int s * 5 / 1023\<bar> \<le> 1 / 2 ^ 21 \<and>
   \<bar>pressure_bar_for s - ((voltage_of s / 5 - 95 / 1000) / (9 / 1000)) / 100\<bar> \<le> 1 / 2 ^ 21 \<and>
   (isRunning st \<longrightarrow>
      effects (sampler VariantA s st) =
        effects st @ [AnalogRead pressurePin, PrintlnFloat (voltage_of s) 2, Delay 1000] \<and>
      effects (sampler VariantB s st) =
        effects st @ [AnalogRead pressurePin, PrintlnFloat (pressure_bar_for s) 6, Delay 2000])"
proof (intro conjI impI)
  assume r: "0 \<le> s \<and> s \<le> 1023"
  then show "\<bar>voltage_of s - of_int s * 5 / 1023\<bar> \<le> 1 / 2 ^ 21"
    using voltage_close[of s] by blast
  show "\<bar>pressure_bar_for s - ((voltage_of s / 5 - 95 / 1000) / (9 / 1000)) / 100\<bar> \<le> 1 / 2 ^ 21"
    unfolding pressure_bar_for_def using voltage_range[of s] r by (intro pressure_close) simp_all
next
  assume "isRunning st"
  then show "effects (sampler VariantA s st) =
        effects st @ [AnalogRead pressurePin, PrintlnFloat (voltage_of s) 2, Delay 1000]"
    by (rule sampler_A)
next
  assume "isRunning st"
  then show "effects (sampler VariantB s st) =
        effects st @ [AnalogRead pressurePin, PrintlnFloat (pressure_bar_for s) 6, Delay 2000]"
    by (rule sampler_B)
qed

theorem conversion_formulas_witness:
  "\<bar>voltage_of 511 - of_int 511 * 5 / 1023\<bar> \<le> 1 / 2 ^ 21 \<and>
   \<bar>pressure_bar_for 511 - ((voltage_of 511 / 5 - 95 / 1000) / (9 / 1000)) / 100\<bar> \<le> 1 / 2 ^ 21 \<and>
   effects (sampler VariantA 511 \<lparr>isRunning = True, inputCommand = [], effects = []\<rparr>) =
     [AnalogRead pressurePin, PrintlnFloat (voltage_of 511) 2, Delay 1000] \<and>
   effects (sampler VariantB 511 \<lparr>isRunning = True, inputCommand = [], effects = []\<rparr>) =
     [AnalogRead pressurePin, PrintlnFloat (pressure_bar_for 511) 6, Delay 2000]"
  using conversion_formulas[of 511 "\<lparr>isRunning = True, inputCommand = [], effects = []\<rparr>"]
  by simp

text \<open>
  C3. The voltage for sample 511 is not 2.4985 to the digits given: it is farther than
  0.0009 from it.
\<close>

theorem sample_511_voltage_counterexample:
  "\<not> \<bar>voltage_of 511 - 24985 / 10000\<bar> \<le> 9 / 10000"
  by (simp add: voltage_of_511)

text \<open>
  C3, as amended. For sample 511 a running Variant A prints, with the default two
  decimals, the voltage \<open>511 * 5 / 1023\<close>, which is 2.4976 to four decimals; a running
  Variant B prints, with six decimals, the pressure in bar its conversion gives for 511,
  which is 0.449457 to six decimals.
\<close>

theorem sample_511_readings:
  "isRunning st \<Longrightarrow>
   effects (sampler VariantA 511 st) =
     effects st @ [AnalogRead pressurePin, PrintlnFloat (voltage_of 511) 2, Delay 1000] \<and>
   \<bar>voltage_of 511 - 511 * 5 / 1023\<bar> \<le> 1 / 2 ^ 21 \<and>
   \<bar>voltage_of 511 - 24976 / 10000\<bar> \<le> 5 / 100000 \<and>
   effects (sampler VariantB 511 st) =
     effects st @ [AnalogRead pressurePin, PrintlnFloat (pressure_bar_for 511) 6, Delay 2000] \<and>
   pressure_bar_for 511 = pressure_bar_of (pressure_kPa_of (voltage_of 511)) \<and>
   \<bar>pressure_bar_for 511 - 449457 / 1000000\<bar> \<le> 1 / 1000000"
proof (intro conjI)
  assume "isRunning st"
  then show "effects (sampler VariantA 511 st) =
     effects st @ [AnalogRead pressurePin, PrintlnFloat (voltage_of 511) 2, Delay 1000]"
    by (rule sampler_A)
  show "effects (sampler VariantB 511 st) =
     effects st @ [AnalogRead pressurePin, PrintlnFloat (pressure_bar_for 511) 6, Delay 2000]"
    using \<open>isRunning st\<close> by (rule sampler_B)
  show "\<bar>voltage_of 511 - 511 * 5 / 1023\<bar> \<le> 1 / 2 ^ 21"
    by (simp add: voltage_of_511)
  show "\<bar>voltage_of 511 - 24976 / 10000\<bar> \<le> 5 / 100000"
    by (simp add: voltage_of_511)
  show "pressure_bar_for 511 = pressure_bar_of (pressure_kPa_of (voltage_of 511))"
    by (simp only: pressure_bar_for_def)
  show "\<bar>pressure_bar_for 511 - 449457 / 1000000\<bar> \<le> 1 / 1000000"
    by (simp add: pressure_bar_for_511)
qed

theorem sample_511_readings_witness:
  "effects (sampler VariantA 511 \<lparr>isRunning = True, inputCommand = [], effects = []\<rparr>) =
     [AnalogRead pressurePin, PrintlnFloat (voltage_of 511) 2, Delay 1000] \<and>
   effects (sampler VariantB 511 \<lparr>isRunning = True, inputCommand = [], effects = []\<rparr>) =
     [AnalogRead pressurePin, PrintlnFloat (pressure_bar_for 511) 6, Delay 2000]"
  using sample_511_readings[of "\<lparr>isRunning = True, inputCommand = [], effects = []\<rparr>"]
  by simp


text \<open>
  C10. Over the samples 0 to 1023 the pressure Variant B computes is strictly increasing
  and lies between its values at 0 and at 1023. These are the single-precision values of
  \<open>((0.0 - 0.095) / 0.009) / 100.0\<close>, about -0.1056, and of
  \<open>((1.0 - 0.095) / 0.009) / 100.0\<close>, about 1.0056; the pressure is negative for every
  sample up to 97. This pressure is what a running Variant B prints for the sample, in the
  sampler and in a whole iteration of the loop, so that for every sample up to 97 the
  reading printed is negative.
\<close>

theorem pressure_monotone_bounded:
  "(0 \<le> s \<and> s < t \<and> t \<le> 1023 \<longrightarrow> pressure_bar_for s < pressure_bar_for t) \<and>
   (0 \<le> s \<and> s \<le> 1023 \<longrightarrow>
      pressure_bar_for 0 \<le> pressure_bar_for s \<and> pressure_bar_for s \<le> pressure_bar_for 1023) \<and>
   pressure_bar_for 0 = fdiv (fdiv (fsub 0 (fl32 (95 / 1000))) (fl32 (9 / 1000))) (fl32 100) \<and>
   \<bar>pressure_bar_for 0 - (- (1056 / 10000))\<bar> \<le> 1 / 10000 \<and>
   pressure_bar_for 1023 = fdiv (fdiv (fsub 1 (fl32 (95 / 1000))) (fl32 (9 / 1000))) (fl32 100) \<and>
   \<bar>pressure_bar_for 1023 - 10056 / 10000\<bar> \<le> 1 / 10000 \<and>
   (0 \<le> s \<and> s \<le> 97 \<longrightarrow> pressure_bar_for s < 0) \<and>
   (isRunning st \<longrightarrow>
      effects (sampler VariantB s st) =
        effects st @ [AnalogRead pressurePin, PrintlnFloat (pressure_bar_for s) 6, Delay 2000] \<and>
      effects (loop VariantB None s st) =
        effects st @ [AnalogRead pressurePin, PrintlnFloat (pressure_bar_for s) 6, Delay 2000]) \<and>
   (isRunning st \<and> 0 \<le> s \<and> s \<le> 97 \<longrightarrow>
      (\<exists>p. p < 0 \<and>
         effects (loop VariantB None s st) =
           effects st @ [AnalogRead pressurePin, PrintlnFloat p 6, Delay 2000]))"
proof (intro conjI impI)
  assume "0 \<le> s \<and> s < t \<and> t \<le> 1023"
  then show "pressure_bar_for s < pressure_bar_for t"
    by (simp add: pressure_bar_for_strict_mono)
next
  assume r: "0 \<le> s \<and> s \<le> 1023"
  show "pressure_bar_for 0 \<le> pressure_bar_for s"
  proof (cases "s = 0")
    case False
    then show ?thesis using r pressure_bar_for_strict_mono[of 0 s] by simp
  qed simp
  show "pressure_bar_for s \<le> pressure_bar_for 1023"
  proof (cases "s = 1023")
    case False
    then show ?thesis using r pressure_bar_for_strict_mono[of s 1023] by simp
  qed simp
next
  show "pressure_bar_for 0 = fdiv (fdiv (fsub 0 (fl32 (95 / 1000))) (fl32 (9 / 1000))) (fl32 100)"
    by code_simp
  show "pressure_bar_for 1023 = fdiv (fdiv (fsub 1 (fl32 (95 / 1000))) (fl32 (9 / 1000))) (fl32 100)"
    by code_simp
  show "\<bar>pressure_bar_for 0 - (- (1056 / 10000))\<bar> \<le> 1 / 10000"
    by (simp add: pressure_bar_for_0)
  show "\<bar>pressure_bar_for 1023 - 10056 / 10000\<bar> \<le> 1 / 10000"
    by (simp add: pressure_bar_for_1023)
next
  assume "0 \<le> s \<and> s \<le> 97"
  then show "pressure_bar_for s < 0"
    by (simp add: pressure_bar_for_negative)
next
  assume "isRunning st"
  then show "effects (sampler VariantB s st) =
        effects st @ [AnalogRead pressurePin, PrintlnFloat (pressure_bar_for s) 6, Delay 2000]"
    by (rule sampler_B)
next
  assume "isRunning st"
  then show "effects (loop VariantB None s st) =
        effects st @ [AnalogRead pressurePin, PrintlnFloat (pressure_bar_for s) 6, Delay 2000]"
    by (simp add: loop_def sampler_B)
next
  assume h: "isRunning st \<and> 0 \<le> s \<and> s \<le> 97"
  then have "pressure_bar_for s < 0"
    by (simp add: pressure_bar_for_negative)
  moreover have "effects (loop VariantB None s st) =
        effects st @ [AnalogRead pressurePin, PrintlnFloat (pressure_bar_for s) 6, Delay 2000]"
    using h by (simp add: loop_def sampler_B)
  ultimately show "\<exists>p. p < 0 \<and>
         effects (loop VariantB None s st) =
           effects st @ [AnalogRead pressurePin, PrintlnFloat p 6, Delay 2000]"
    by blast
qed

theorem pressure_monotone_bounded_witness:
  "pressure_bar_for 50 < pressure_bar_for 600 \<and>
   pressure_bar_for 0 \<le> pressure_bar_for 50 \<and> pressure_bar_for 50 \<le> pressure_bar_for 1023 \<and>
   pressure_bar_for 50 < 0 \<and>
   effects (sampler VariantB 50 \<lparr>isRunning = True, inputCommand = [], effects = []\<rparr>) =
     [AnalogRead pressurePin, PrintlnFloat (pressure_bar_for 50) 6, Delay 2000] \<and>
   (\<exists>p. p < 0 \<and>
      effects (loop VariantB None 50 \<lparr>isRunning = True, inputCommand = [], effects = []\<rparr>) =
        [AnalogRead pressurePin, PrintlnFloat p 6, Delay 2000])"
  using pressure_monotone_bounded[of 50 600 "\<lparr>isRunning = True, inputCommand = [], effects = []\<rparr>"]
  by simp

end
